theory Spec2Isabelle
  imports Complex_Main "HOL-Library.Multiset" "HOL-Library.Char_ord"
    "HOL-Library.List_Lexorder" "HOL-Library.Sublist"
begin

section \<open>Python values used by the agent\<close>

text \<open>
  Python \<open>int\<close> is \<^typ>\<open>int\<close>, \<open>str\<close> is \<^typ>\<open>string\<close>, \<open>float\<close> is
  \<^typ>\<open>real\<close>: arithmetic on floats is idealised to exact arithmetic, so the formulas of
  the source are read as formulas over the reals.  Exceptions are values of
  \<open>py_error\<close>; a call that can raise returns \<open>py_error + 'a\<close>.
\<close>

datatype py_error = ValueError | IndexError | OSError | JSONDecodeError | AttributeError
  | RuntimeError

definition bind_err :: "py_error + 'a \<Rightarrow> ('a \<Rightarrow> py_error + 'b) \<Rightarrow> py_error + 'b" where
  "bind_err m f = (case m of Inl e \<Rightarrow> Inl e | Inr x \<Rightarrow> f x)"

subsection \<open>Strings\<close>

text \<open>
  \<open>str.lower()\<close>, on the ASCII letters (other characters are left as they are).  A
  string of the model is a list of bytes, so positions and lengths are those of Python
  for ASCII text.
\<close>

definition lower_char :: "char \<Rightarrow> char" where
  "lower_char c =
     (case map_of (zip ''ABCDEFGHIJKLMNOPQRSTUVWXYZ'' ''abcdefghijklmnopqrstuvwxyz'') c of
        Some l \<Rightarrow> l
      | None \<Rightarrow> c)"

definition lower :: "string \<Rightarrow> string" where
  "lower s = map lower_char s"

text \<open>\<open>k in s\<close> for two strings: \<open>k\<close> occurs in \<open>s\<close> as a contiguous substring.\<close>

fun str_in :: "string \<Rightarrow> string \<Rightarrow> bool" where
  "str_in k [] = (k = [])"
| "str_in k (c # cs) = (take (length k) (c # cs) = k \<or> str_in k cs)"

text \<open>\<open>any(v in s for v in vals)\<close>.\<close>

definition any_in :: "string list \<Rightarrow> string \<Rightarrow> bool" where
  "any_in vals s = list_ex (\<lambda>v. str_in v s) vals"

text \<open>\<open>s.find(k)\<close>: the lowest index at which \<open>k\<close> occurs in \<open>s\<close>, or \<open>-1\<close>.\<close>

fun find_from :: "nat \<Rightarrow> string \<Rightarrow> string \<Rightarrow> int" where
  "find_from i k [] = (if k = [] then int i else - 1)"
| "find_from i k (c # cs) =
     (if take (length k) (c # cs) = k then int i else find_from (Suc i) k cs)"

definition str_find :: "string \<Rightarrow> string \<Rightarrow> int" where
  "str_find s k = find_from 0 k s"

text \<open>\<open>s.strip()\<close>: leading and trailing white space removed.\<close>

definition is_space :: "char \<Rightarrow> bool" where
  "is_space c = (c \<in> set [CHR '' '', CHR 0x09, CHR 0x0A, CHR 0x0B, CHR 0x0C, CHR 0x0D,
                           CHR 0x1C, CHR 0x1D, CHR 0x1E, CHR 0x1F])"

definition strip :: "string \<Rightarrow> string" where
  "strip s = rev (dropWhile is_space (rev (dropWhile is_space s)))"

text \<open>\<open>s[start:end]\<close> for \<open>0 \<le> start\<close> and \<open>0 \<le> end\<close>.\<close>

definition slice :: "'a list \<Rightarrow> nat \<Rightarrow> nat \<Rightarrow> 'a list" where
  "slice s start stop = take (stop - start) (drop start s)"

text \<open>\<open>str(n)\<close> for an integer: its decimal digits, with a minus sign when negative.\<close>

definition digit_char :: "nat \<Rightarrow> char" where
  "digit_char d = ''0123456789'' ! (d mod 10)"

function str_of_nat :: "nat \<Rightarrow> string" where
  "str_of_nat n = (if n < 10 then [digit_char n] else str_of_nat (n div 10) @ [digit_char n])"
  by pat_completeness auto
termination
  by (relation "measure id") auto

definition str_of_int :: "int \<Rightarrow> string" where
  "str_of_int i = (if i < 0 then CHR ''-'' # str_of_nat (nat (- i)) else str_of_nat (nat i))"

text \<open>
  \<open>list(dict.fromkeys(xs))\<close>: duplicates removed, the first occurrence of each element
  kept, in order.
\<close>

fun fromkeys :: "'a list \<Rightarrow> 'a list \<Rightarrow> 'a list" where
  "fromkeys seen [] = []"
| "fromkeys seen (x # xs) =
     (if x \<in> set seen then fromkeys seen xs else x # fromkeys (x # seen) xs)"

text \<open>
  \<open>round(x, n)\<close>: to \<open>n\<close> decimal places, a tie going to the even neighbour.  The model
  rounds the real number; Python rounds the double, so a decimal tie that is not a double
  (such as 0.525) goes to the side on which the double lies.  The values the properties
  below round are multiples of 0.0001 or are clipped first, where the two agree.
\<close>

definition round_half_even :: "real \<Rightarrow> int" where
  "round_half_even y =
     (let f = \<lfloor>y\<rfloor>; d = y - of_int f
      in if d < 1 / 2 then f else if 1 / 2 < d then f + 1 else if even f then f else f + 1)"

definition py_round :: "real \<Rightarrow> nat \<Rightarrow> real" where
  "py_round x n = of_int (round_half_even (x * 10 ^ n)) / 10 ^ n"

section \<open>Issue tagging and the plan (retriever.py, agent.py)\<close>

text \<open>The trigger phrases of \<open>Retriever._issue_keywords\<close>, in the order of the source.\<close>

definition issue_mapping :: "(string \<times> string list) list" where
  "issue_mapping =
    [(''privacy'', [''privacy'', ''article 21'', ''fundamental right'', ''data protection'',
        ''personal data'']),
     (''proportionality'', [''proportionality'', ''least restrictive'', ''necessity'',
        ''balancing'']),
     (''biometric'', [''biometric'', ''aadhaar'', ''fingerprint'', ''iris'',
        ''face recognition'', ''facial recognition'']),
     (''safeguards'', [''safeguards'', ''oversight'', ''data protection'', ''audit'',
        ''breach'']),
     (''legality'', [''statute'', ''law'', ''legality'', ''ultra vires'', ''backed by law'']),
     (''religion'', [''article 25'', ''religion'', ''religious'', ''hijab'', ''turban'',
        ''kirpan'', ''faith'', ''worship'']),
     (''expression'', [''article 19(1)(a)'', ''freedom of speech'', ''expression'',
        ''symbolic'', ''dress'', ''slogan'']),
     (''equality'', [''article 14'', ''equality'', ''equal'', ''discrimination'',
        ''arbitrary'']),
     (''trade'', [''article 19(1)(g)'', ''trade'', ''business'', ''commerce'',
        ''e-commerce'']),
     (''assembly'', [''article 19(1)(b)'', ''protest'', ''assembly'', ''demonstration'']),
     (''internet'', [''internet'', ''shutdown'', ''broadband'', ''telecom'']),
     (''localization'', [''localization'', ''data localization'', ''cross-border'',
        ''data transfer'']),
     (''surveillance'', [''surveillance'', ''cctv'', ''public safety'', ''tracking''])]"

definition issue_keywords :: "string \<Rightarrow> string list" where
  "issue_keywords txt =
     (let text_l = lower txt;
          kws = map fst (filter (\<lambda>(key, vals). any_in vals text_l) issue_mapping)
      in sorted_list_of_set (set kws))"

text \<open>
  \<open>plan_steps\<close>: the list \<open>steps\<close> built by the rules, then the loop that removes
  duplicates and keeps the order (\<open>uniq\<close> and \<open>seen\<close> of the source).
\<close>

definition step_first :: string where
  "step_first = ''Confirm enabling law (legality) and legitimate aim.''"

definition step_suitability :: string where
  "step_suitability = ''Assess suitability to the aim.''"

definition step_necessity :: string where
  "step_necessity = ''Assess necessity (less intrusive means).''"

definition step_balancing :: string where
  "step_balancing = ''Assess balancing and safeguards (purpose, storage, oversight).''"

definition step_religion :: string where
  "step_religion = ''Consider Article 25 scope and any 25(2) justifications.''"

definition step_expression :: string where
  "step_expression =
     ''If Article 19(1)(a) is implicated, analyze reasonableness and proportionality.''"

definition step_trade :: string where
  "step_trade = ''If Article 19(1)(g) is implicated, test reasonableness of restrictions.''"

definition step_equality :: string where
  "step_equality = ''Check Article 14 arbitrariness and equal protection concerns.''"

definition step_last :: string where
  "step_last = ''Draft positions and propose outcome.''"

definition plan_candidates :: "string list \<Rightarrow> string list" where
  "plan_candidates issues =
     [step_first]
     @ (if ''proportionality'' \<in> set issues \<or> ''privacy'' \<in> set issues
           \<or> ''biometric'' \<in> set issues \<or> ''surveillance'' \<in> set issues
        then [step_suitability, step_necessity, step_balancing] else [])
     @ (if ''religion'' \<in> set issues then [step_religion] else [])
     @ (if ''expression'' \<in> set issues then [step_expression] else [])
     @ (if ''trade'' \<in> set issues then [step_trade] else [])
     @ (if ''equality'' \<in> set issues then [step_equality] else [])
     @ [step_last]"

definition plan_steps :: "string list \<Rightarrow> string list" where
  "plan_steps issues = fromkeys [] (plan_candidates issues)"

section \<open>The feedback store (feedback.py)\<close>

text \<open>
  The dictionary \<open>data\<close> that \<open>_load\<close> returns has the four keys of
  \<open>DEFAULT_FEEDBACK\<close> (and \<open>last_notes\<close> once notes were given).  Its \<open>doc_boosts\<close>
  entry is a reference to a dictionary object: \<open>DEFAULT_FEEDBACK.copy()\<close> is a shallow
  copy and \<open>setdefault\<close> stores the default's own value, so the entry is either the one
  dictionary held by \<open>DEFAULT_FEEDBACK\<close> (\<open>DefaultBoosts\<close>, shared by every such copy)
  or a dictionary built by \<open>json.load\<close> (\<open>OwnBoosts\<close>).  The values in the file are
  taken to have the types the module writes: integers for the counters, an object of
  numbers for the boosts.  A file that parses but holds other types (written by hand)
  makes \<open>get_doc_boosts\<close> and \<open>record_feedback\<close> raise; such files are outside the model.
\<close>

type_synonym boosts = "string \<rightharpoonup> real"

datatype boosts_ref = DefaultBoosts | OwnBoosts boosts

record feedback =
  style_bullets :: int
  style_citations :: int
  emphasis_proportionality :: int
  doc_boosts :: boosts_ref
  last_notes :: "string option"

text \<open>A JSON object in the feedback file: each key may be absent.\<close>

record stored =
  s_style_bullets :: "int option"
  s_style_citations :: "int option"
  s_emphasis_proportionality :: "int option"
  s_doc_boosts :: "boosts option"
  s_last_notes :: "string option"

text \<open>
  The file at \<open>FEEDBACK_PATH\<close>: missing; present but raising inside the \<open>try\<close> block of
  \<open>_load\<close> (the open, the parse, or \<open>setdefault\<close> on a value that is not an object);
  or holding a JSON object.  The state of the process is the file and the dictionary
  object held by \<open>DEFAULT_FEEDBACK["doc_boosts"]\<close>.
\<close>

datatype feedback_file = Missing | Broken py_error | Content stored

record world =
  fb_file :: feedback_file
  default_boosts :: boosts

definition DEFAULT_FEEDBACK_copy :: feedback where
  "DEFAULT_FEEDBACK_copy =
     \<lparr>style_bullets = 0, style_citations = 1, emphasis_proportionality = 1,
      doc_boosts = DefaultBoosts, last_notes = None\<rparr>"

definition path_exists :: "feedback_file \<Rightarrow> bool" where
  "path_exists f = (case f of Missing \<Rightarrow> False | Broken e \<Rightarrow> True | Content j \<Rightarrow> True)"

text \<open>\<open>with open(FEEDBACK_PATH, "r") as f: data = json.load(f)\<close>.\<close>

definition read_json :: "feedback_file \<Rightarrow> py_error + stored" where
  "read_json f = (case f of Missing \<Rightarrow> Inl OSError | Broken e \<Rightarrow> Inl e | Content j \<Rightarrow> Inr j)"

text \<open>\<open>for k, v in DEFAULT_FEEDBACK.items(): data.setdefault(k, v)\<close>.\<close>

definition setdefaults :: "stored \<Rightarrow> feedback" where
  "setdefaults j =
     \<lparr>style_bullets = (case s_style_bullets j of Some v \<Rightarrow> v | None \<Rightarrow> 0),
      style_citations = (case s_style_citations j of Some v \<Rightarrow> v | None \<Rightarrow> 1),
      emphasis_proportionality =
        (case s_emphasis_proportionality j of Some v \<Rightarrow> v | None \<Rightarrow> 1),
      doc_boosts = (case s_doc_boosts j of Some m \<Rightarrow> OwnBoosts m | None \<Rightarrow> DefaultBoosts),
      last_notes = s_last_notes j\<rparr>"

text \<open>\<open>_load\<close>: the \<open>except Exception\<close> branch returns the copy of the default.\<close>

definition load :: "world \<Rightarrow> feedback" where
  "load w =
     (if path_exists (fb_file w)
      then (case bind_err (read_json (fb_file w)) (\<lambda>j. Inr (setdefaults j)) of
              Inr data \<Rightarrow> data
            | Inl e \<Rightarrow> DEFAULT_FEEDBACK_copy)
      else DEFAULT_FEEDBACK_copy)"

text \<open>The dictionary a \<open>doc_boosts\<close> entry refers to.\<close>

definition boosts_of :: "world \<Rightarrow> feedback \<Rightarrow> boosts" where
  "boosts_of w data =
     (case doc_boosts data of DefaultBoosts \<Rightarrow> default_boosts w | OwnBoosts m \<Rightarrow> m)"

definition get_doc_boosts :: "world \<Rightarrow> boosts" where
  "get_doc_boosts w = boosts_of w (load w)"

text \<open>
  \<open>_save\<close>.  What the write does is the environment's choice: it succeeds, \<open>open\<close>
  raises (the file is left as it was), or \<open>json.dump\<close> raises after \<open>open(..., "w")\<close>
  truncated the file (what is left does not parse).  \<open>write_json\<close> is the body of the
  \<open>try\<close>: the exception raised, if any, and the file left behind.
\<close>

datatype write_outcome = Written | OpenRaises | DumpRaises

definition to_json :: "world \<Rightarrow> feedback \<Rightarrow> stored" where
  "to_json w data =
     \<lparr>s_style_bullets = Some (style_bullets data),
      s_style_citations = Some (style_citations data),
      s_emphasis_proportionality = Some (emphasis_proportionality data),
      s_doc_boosts = Some (boosts_of w data),
      s_last_notes = last_notes data\<rparr>"

definition write_json :: "write_outcome \<Rightarrow> stored \<Rightarrow> feedback_file \<Rightarrow> py_error option \<times> feedback_file" where
  "write_json wo j f =
     (case wo of
        Written \<Rightarrow> (None, Content j)
      | OpenRaises \<Rightarrow> (Some OSError, f)
      | DumpRaises \<Rightarrow> (Some OSError, Broken JSONDecodeError))"

definition save :: "write_outcome \<Rightarrow> feedback \<Rightarrow> world \<Rightarrow> world" where
  "save wo data w =
     (case write_json wo (to_json w data) (fb_file w) of (exc, f) \<Rightarrow> w\<lparr>fb_file := f\<rparr>)"

text \<open>One pass of the loop \<open>for did in used_doc_ids\<close>.\<close>

definition boost_step :: "real \<Rightarrow> boosts \<Rightarrow> string \<Rightarrow> boosts" where
  "boost_step delta m did =
     (let cur = (case m did of None \<Rightarrow> 0 | Some v \<Rightarrow> v) + delta;
          cur = max (- 0.2) (min 0.2 cur)
      in m(did \<mapsto> py_round cur 4))"

text \<open>
  \<open>record_feedback\<close> returns the dictionary \<open>data\<close> and leaves the process in a new
  state.  The loop assigns into the dictionary object \<open>boosts\<close> refers to: the default's
  own dictionary when \<open>data\<close> came from the default.
\<close>

definition record_feedback ::
  "write_outcome \<Rightarrow> bool \<Rightarrow> string list option \<Rightarrow> string \<Rightarrow> world \<Rightarrow> feedback \<times> world" where
  "record_feedback wo thumbs_up used_doc_ids notes w =
     (let data = load w;
          data = (if thumbs_up
                  then data\<lparr>style_citations := min 2 (style_citations data + 1),
                            emphasis_proportionality :=
                              min 2 (emphasis_proportionality data + 1)\<rparr>
                  else data\<lparr>style_bullets := min 2 (style_bullets data + 1)\<rparr>);
          ids = (case used_doc_ids of None \<Rightarrow> [] | Some l \<Rightarrow> l);
          delta = (if thumbs_up then 0.02 else - 0.02);
          boosts = foldl (boost_step delta) (boosts_of w data) ids;
          w = (case doc_boosts data of
                 DefaultBoosts \<Rightarrow> w\<lparr>default_boosts := boosts\<rparr>
               | OwnBoosts m \<Rightarrow> w);
          data = (case doc_boosts data of
                    DefaultBoosts \<Rightarrow> data
                  | OwnBoosts m \<Rightarrow> data\<lparr>doc_boosts := OwnBoosts boosts\<rparr>);
          data = (if notes \<noteq> [] then data\<lparr>last_notes := Some notes\<rparr> else data)
      in (data, save wo data w))"

text \<open>\<open>get_doc_boosts().get(doc.id, 0.0)\<close>, the boost the ranker reads.\<close>

definition doc_boost :: "world \<Rightarrow> string \<Rightarrow> real" where
  "doc_boost w did = (case get_doc_boosts w did of None \<Rightarrow> 0 | Some v \<Rightarrow> v)"

section \<open>The retriever (retriever.py)\<close>

record doc =
  doc_id :: string
  title :: string
  year :: int
  court :: string
  level_weight :: real
  tags :: "string list"
  doc_text :: string

text \<open>A retrieved item, \<open>{"score": score, **d.__dict__}\<close>.\<close>

record ranked =
  score :: real
  rdoc :: doc

text \<open>
  A \<open>Retriever\<close> holds the documents and their embeddings.  The embedding model is
  outside the repository: for a corpus with documents, where \<open>self.embs\<close> has shape
  \<open>(N, D)\<close>, \<open>similarity r query\<close> stands for
  \<open>(self.embs @ self._encode([query])[0]).astype(float)\<close>, the vector of cosines, or
  the exception that the model raises.
\<close>

record retriever =
  docs :: "doc list"
  similarity :: "string \<Rightarrow> py_error + real list"

text \<open>
  The product \<open>self.embs @ qv\<close> of \<open>retrieve\<close>.  For a corpus without documents
  \<open>_encode([])\<close> is \<open>np.array\<close> of no vectors, an array of shape \<open>(0,)\<close>, and its
  product with the query vector, which has the dimension of the model, raises
  \<open>ValueError\<close>.
\<close>

definition embs_product :: "retriever \<Rightarrow> string \<Rightarrow> py_error + real list" where
  "embs_product r query = (if docs r = [] then Inl ValueError else similarity r query)"

definition issue_overlap :: "string list \<Rightarrow> string list \<Rightarrow> real" where
  "issue_overlap tgs kws =
     (if kws = [] then 0
      else real (card (set tgs \<inter> set kws)) / real (card (set kws)))"

definition recency :: "int \<Rightarrow> int \<Rightarrow> real" where
  "recency yr current_year =
     (let age = max 0 (current_year - yr) in max 0 (1 - of_int age / 20))"

text \<open>\<open>_precedent_score\<close> calls \<open>_recency\<close> with its default \<open>current_year = 2025\<close>.\<close>

definition precedent_score :: "world \<Rightarrow> real \<Rightarrow> doc \<Rightarrow> string list \<Rightarrow> real" where
  "precedent_score w sim d kws =
     (let a = 0.55; b = 0.15; c = 0.2; dd = 0.1;
          base = a * sim + b * recency (year d) 2025 + c * level_weight d
                 + dd * issue_overlap (tags d) kws;
          boost = doc_boost w (doc_id d)
      in base + boost)"

subsection \<open>The NumPy routines\<close>

text \<open>
  \<open>np.argpartition\<close> and \<open>np.argsort\<close> are library routines; NumPy fixes their results
  only up to the order of equal keys.  The orders they produce are parameters of the
  model (\<open>numpy\<close>), constrained by \<open>numpy_contract\<close>: \<open>argsort\<close> returns a permutation
  of the indices that sorts the keys, \<open>argpartition\<close> a permutation with the \<open>kth\<close>
  key in its sorted place, no larger key before it and no smaller key after it.
  \<open>stable_numpy\<close> is one implementation (a stable sort).  The wrappers below are the
  parts NumPy fixes: a negative \<open>kth\<close> counts from the end, a \<open>kth\<close> out of bounds
  raises \<open>ValueError\<close> unless the array is empty, and an index out of range raises
  \<open>IndexError\<close>.
\<close>

record numpy =
  select_order :: "real list \<Rightarrow> nat \<Rightarrow> nat list"
  sort_order :: "real list \<Rightarrow> nat list"

definition is_argsort :: "real list \<Rightarrow> nat list \<Rightarrow> bool" where
  "is_argsort a p \<longleftrightarrow> mset p = mset [0..<length a] \<and> sorted (map (nth a) p)"

definition is_argpartition :: "real list \<Rightarrow> nat \<Rightarrow> nat list \<Rightarrow> bool" where
  "is_argpartition a kth p \<longleftrightarrow>
     mset p = mset [0..<length a] \<and>
     list_all (\<lambda>i. (i \<le> kth \<longrightarrow> a ! (p ! i) \<le> a ! (p ! kth)) \<and>
                   (kth \<le> i \<longrightarrow> a ! (p ! kth) \<le> a ! (p ! i))) [0..<length p]"

definition numpy_contract :: "numpy \<Rightarrow> bool" where
  "numpy_contract np \<longleftrightarrow>
     (\<forall>a kth. a = [] \<or> kth < length a \<longrightarrow> is_argpartition a kth (select_order np a kth)) \<and>
     (\<forall>a. is_argsort a (sort_order np a))"

definition stable_argsort :: "real list \<Rightarrow> nat list" where
  "stable_argsort a = sort_key (nth a) [0..<length a]"

definition stable_numpy :: numpy where
  "stable_numpy = \<lparr>select_order = (\<lambda>a kth. stable_argsort a), sort_order = stable_argsort\<rparr>"

definition np_argpartition :: "numpy \<Rightarrow> real list \<Rightarrow> int \<Rightarrow> py_error + nat list" where
  "np_argpartition np a kth =
     (let n = int (length a);
          kth' = (if kth < 0 then kth + n else kth)
      in if n \<noteq> 0 \<and> (kth' < 0 \<or> n \<le> kth') then Inl ValueError
         else Inr (select_order np a (nat kth')))"

definition np_argsort :: "numpy \<Rightarrow> real list \<Rightarrow> nat list" where
  "np_argsort np a = sort_order np a"

text \<open>\<open>a[idxs]\<close> for an array of indices, \<open>a[:k]\<close>, and \<open>a[i]\<close> for a list.\<close>

definition np_take :: "'a list \<Rightarrow> nat list \<Rightarrow> py_error + 'a list" where
  "np_take a idxs =
     (if list_all (\<lambda>i. i < length a) idxs then Inr (map (nth a) idxs) else Inl IndexError)"

definition py_prefix :: "'a list \<Rightarrow> int \<Rightarrow> 'a list" where
  "py_prefix a k = (if k < 0 then take (length a - nat (- k)) a else take (nat k) a)"

definition py_getitem :: "'a list \<Rightarrow> nat \<Rightarrow> py_error + 'a" where
  "py_getitem a i = (if i < length a then Inr (a ! i) else Inl IndexError)"

fun map_err :: "('a \<Rightarrow> py_error + 'b) \<Rightarrow> 'a list \<Rightarrow> py_error + 'b list" where
  "map_err f [] = Inr []"
| "map_err f (x # xs) =
     bind_err (f x) (\<lambda>y. bind_err (map_err f xs) (\<lambda>ys. Inr (y # ys)))"

subsection \<open>\<open>Retriever.retrieve\<close>\<close>

definition retrieve ::
  "numpy \<Rightarrow> retriever \<Rightarrow> world \<Rightarrow> string \<Rightarrow> int \<Rightarrow> py_error + ranked list" where
  "retrieve np r w query k0 =
     (let kws = issue_keywords query
      in bind_err (embs_product r query) (\<lambda>sims.
         let k = min k0 (int (length (docs r)))
         in bind_err (np_argpartition np (map uminus sims) (k - 1)) (\<lambda>part.
            let idxs = py_prefix part k
            in bind_err (np_take sims idxs) (\<lambda>top_sims.
               bind_err (np_take idxs (np_argsort np (map uminus top_sims))) (\<lambda>idxs.
               map_err (\<lambda>idx.
                 bind_err (py_getitem (docs r) idx) (\<lambda>d.
                 bind_err (py_getitem sims idx) (\<lambda>sim.
                 Inr \<lparr>score = precedent_score w sim d kws, rdoc = d\<rparr>))) idxs)))))"

section \<open>The agent (agent.py)\<close>

definition key_terms :: "string list" where
  "key_terms = [''privacy'', ''proportionality'', ''necessity'', ''safeguards'',
                ''biometric'', ''article 21'']"

text \<open>The citation \<open>f"{d['title']} ({d['year']})"\<close>.\<close>

definition cite :: "ranked \<Rightarrow> string" where
  "cite d = title (rdoc d) @ '' ('' @ str_of_int (year (rdoc d)) @ '')''"

definition evidence_check :: "string list \<Rightarrow> ranked list \<Rightarrow> (string \<times> string list) list" where
  "evidence_check claims top_docs =
     map (\<lambda>c.
       let c_l = lower c;
           cites = concat (map (\<lambda>d.
             let txt = lower (doc_text (rdoc d))
             in if any_in key_terms c_l
                then (if any_in key_terms txt then [cite d] else [])
                else []) top_docs)
       in (c, sort (fromkeys [] cites))) claims"

definition top_score_mean :: "ranked list \<Rightarrow> real" where
  "top_score_mean retrieved =
     sum_list (map score (take 2 retrieved)) / of_int (max 1 (int (length (take 2 retrieved))))"

definition risk_terms :: "string list" where
  "risk_terms = [''blanket'', ''mandatory'', ''indefinite'', ''mass'', ''facial recognition'',
                 ''biometric'', ''shutdown'', ''localization'']"

definition safe_terms :: "string list" where
  "safe_terms = [''safeguard'', ''oversight'', ''exemption'', ''opt-out'',
                 ''purpose limitation'', ''data minimization'', ''sunset'']"

definition verdict_confidence :: "string \<Rightarrow> ranked list \<Rightarrow> real" where
  "verdict_confidence query retrieved =
     (let s = top_score_mean retrieved;
          conf = 0.4 + 0.5 * (s - 0.5);
          q = lower query;
          conf = (if any_in risk_terms q then conf + 0.05 else conf);
          conf = (if any_in safe_terms q then conf - 0.05 else conf)
      in max 0.5 (min 0.9 conf))"

text \<open>The ellipsis character U+2026, as its three UTF-8 bytes.\<close>

definition ellipsis :: string where
  "ellipsis = [CHR 0xE2, CHR 0x80, CHR 0xA6]"

fun extract_snippet :: "string \<Rightarrow> string list \<Rightarrow> nat \<Rightarrow> string option" where
  "extract_snippet txt [] window = None"
| "extract_snippet txt (k # ks) window =
     (let tl = lower txt;
          i = str_find tl k
      in if i \<noteq> - 1
         then (let start = max 0 (i - int (window div 2));
                   stop = min (int (length txt)) (i + int (window div 2));
                   snippet = strip (slice txt (nat start) (nat stop))
               in Some ((if 0 < start then ellipsis else []) @ snippet
                        @ (if stop < int (length txt) then ellipsis else [])))
         else extract_snippet txt ks window)"

record case_file =
  case_title :: string
  facts :: string
  issues_hint :: "string list"

record evidence_item =
  source :: string
  snippet :: string

record snippet_record =
  claim :: string
  evidence :: "evidence_item list"

record agent_result =
  plan :: "string list"
  retrieved :: "ranked list"
  grounding :: "(string \<times> string list) list"
  grounding_snippets :: "snippet_record list"
  draft :: string
  confidence :: real
  used_doc_ids :: "string list"

definition claims_probe :: "string list" where
  "claims_probe =
     [''Privacy is a fundamental right under Article 21.'',
      ''Any limitation must satisfy proportionality including necessity.'',
      ''Blanket biometric mandates are intrusive and require robust safeguards.'',
      ''Legality requires clear statutory backing and oversight.'']"

text \<open>
  The body of the loop \<open>for c in claims_probe\<close> of \<open>run_agent\<close>: the pair appended to
  \<open>grounding\<close>, the list \<open>evidences\<close> built by the inner loop over the retrieved
  documents, and the record appended to \<open>grounding_snippets\<close>.
\<close>

definition probe_grounding :: "ranked list \<Rightarrow> string \<Rightarrow> string \<times> string list" where
  "probe_grounding rs c =
     (let cites = map cite (filter (\<lambda>d. any_in key_terms (lower (doc_text (rdoc d)))) rs)
      in (c, sort (fromkeys [] cites)))"

definition snippet_evidences :: "ranked list \<Rightarrow> evidence_item list" where
  "snippet_evidences rs =
     concat (map (\<lambda>d.
       case extract_snippet (doc_text (rdoc d)) key_terms 140 of
         None \<Rightarrow> []
       | Some snip \<Rightarrow> if snip \<noteq> [] then [\<lparr>source = cite d, snippet = snip\<rparr>] else []) rs)"

definition probe_snippets :: "ranked list \<Rightarrow> string \<Rightarrow> snippet_record" where
  "probe_snippets rs c = \<lparr>claim = c, evidence = take 3 (snippet_evidences rs)\<rparr>"

text \<open>
  \<open>run_agent\<close>.  The drafting call (\<open>draft_arguments\<close>, which builds the prompt and
  calls the chat service) is the parameter \<open>drafter\<close>; it may raise.  The \<open>issues\<close>
  labels of the result are not modelled.
\<close>

definition run_agent ::
  "numpy \<Rightarrow> retriever \<Rightarrow> world \<Rightarrow> case_file \<Rightarrow> (ranked list \<Rightarrow> py_error + string)
     \<Rightarrow> py_error + agent_result" where
  "run_agent np r w cf drafter =
     (let query = case_title cf @ ''. '' @ facts cf;
          raw_issues = issue_keywords query;
          steps = plan_steps raw_issues
      in bind_err (retrieve np r w query 5) (\<lambda>rs.
         let grounding = map (probe_grounding rs) claims_probe;
             grounding_snippets = map (probe_snippets rs) claims_probe
         in bind_err (drafter rs) (\<lambda>draft.
            let conf = verdict_confidence query rs
            in Inr \<lparr>plan = steps, retrieved = rs, grounding = grounding,
                    grounding_snippets = grounding_snippets, draft = draft,
                    confidence = py_round conf 2,
                    used_doc_ids = map (\<lambda>d. doc_id (rdoc d)) (take 4 rs)\<rparr>)))"

section \<open>The statements of the specification\<close>



text \<open>
  A feedback event is one call of \<open>record_feedback\<close> together with what its write did;
  a sequence of events is run from a state of the process.
\<close>

record event =
  ev_up :: bool
  ev_ids :: "string list"
  ev_notes :: string
  ev_write :: write_outcome

definition apply_event :: "world \<Rightarrow> event \<Rightarrow> world" where
  "apply_event w e =
     snd (record_feedback (ev_write e) (ev_up e) (Some (ev_ids e)) (ev_notes e) w)"

definition run_events :: "world \<Rightarrow> event list \<Rightarrow> world" where
  "run_events w evs = foldl apply_event w evs"

text \<open>
  The specification's running sum: from 0, each event adds 0.02 (thumbs up) or subtracts
  0.02 (thumbs down), and the sum is clipped to [-0.2, 0.2] and rounded to four places at
  each step.
\<close>

definition running_boost :: "bool list \<Rightarrow> real" where
  "running_boost ups =
     foldl (\<lambda>b up. py_round (max (- 0.2) (min 0.2 (b + (if up then 0.02 else - 0.02)))) 4)
       0 ups"

text \<open>One update of one boost, and the value a dictionary gives an id (0 when absent).\<close>

definition bump :: "real \<Rightarrow> real \<Rightarrow> real" where
  "bump delta x = py_round (max (- 0.2) (min 0.2 (x + delta))) 4"

definition boost_val :: "boosts \<Rightarrow> string \<Rightarrow> real" where
  "boost_val m d = (case m d of None \<Rightarrow> 0 | Some v \<Rightarrow> v)"

text \<open>The invariant of the feedback state: counters in [0, 2], boosts in [-0.2, 0.2].\<close>

definition boosts_ok :: "boosts \<Rightarrow> bool" where
  "boosts_ok m \<longleftrightarrow> (\<forall>v \<in> ran m. - 0.2 \<le> v \<and> v \<le> 0.2)"

definition counter_ok :: "int \<Rightarrow> bool" where
  "counter_ok c \<longleftrightarrow> 0 \<le> c \<and> c \<le> 2"

definition feedback_ok :: "world \<Rightarrow> feedback \<Rightarrow> bool" where
  "feedback_ok w data \<longleftrightarrow>
     counter_ok (style_bullets data) \<and> counter_ok (style_citations data) \<and>
     counter_ok (emphasis_proportionality data) \<and> boosts_ok (boosts_of w data)"

definition stored_ok :: "stored \<Rightarrow> bool" where
  "stored_ok j \<longleftrightarrow>
     (\<forall>c \<in> set_option (s_style_bullets j). counter_ok c) \<and>
     (\<forall>c \<in> set_option (s_style_citations j). counter_ok c) \<and>
     (\<forall>c \<in> set_option (s_emphasis_proportionality j). counter_ok c) \<and>
     (\<forall>m \<in> set_option (s_doc_boosts j). boosts_ok m)"

definition world_ok :: "world \<Rightarrow> bool" where
  "world_ok w \<longleftrightarrow>
     boosts_ok (default_boosts w) \<and>
     (case fb_file w of Content j \<Rightarrow> stored_ok j | _ \<Rightarrow> True)"

text \<open>
  A fresh process with no feedback file, and the states reached from it by calls of
  \<open>record_feedback\<close>, whatever their arguments and whatever the writes do, and by
  restarts of the process (the file stays, the module's default dictionary is new).
\<close>

definition initial_world :: world where
  "initial_world = \<lparr>fb_file = Missing, default_boosts = Map.empty\<rparr>"

inductive reachable :: "world \<Rightarrow> bool" where
  start: "reachable initial_world"
| step: "reachable w \<Longrightarrow> reachable (snd (record_feedback wo up ids nts w))"
| restart: "reachable w \<Longrightarrow> reachable (w\<lparr>default_boosts := Map.empty\<rparr>)"

section \<open>Example inputs\<close>

definition ev_up_a :: event where
  "ev_up_a = \<lparr>ev_up = True, ev_ids = [''a''], ev_notes = [], ev_write = Written\<rparr>"

definition ev_down_a :: event where
  "ev_down_a =
     \<lparr>ev_up = False, ev_ids = [''a'', ''b''], ev_notes = ''too long'', ev_write = Written\<rparr>"

definition ev_up_twice :: event where
  "ev_up_twice = \<lparr>ev_up = True, ev_ids = [''a'', ''a''], ev_notes = [], ev_write = Written\<rparr>"

definition ev_up_unsaved :: event where
  "ev_up_unsaved = \<lparr>ev_up = True, ev_ids = [''a''], ev_notes = [], ev_write = OpenRaises\<rparr>"

text \<open>
  The process after \<open>record_feedback(True, ["a"])\<close> in a fresh process without a
  feedback file, when the file cannot be opened for writing.
\<close>

definition unsaved_world :: world where
  "unsaved_world = snd (record_feedback OpenRaises True (Some [''a'']) [] initial_world)"

text \<open>
  Two precedents: the older one is closer to the query, the newer one comes from a
  weightier bench.  A retriever over an empty corpus, a case whose text triggers no
  issue tag, and a drafting call that succeeds.
\<close>

definition doc_a :: doc where
  "doc_a = \<lparr>doc_id = ''d1'', title = ''PUCL'', year = 1997, court = ''SC'',
            level_weight = 0.1, tags = [''surveillance''],
            doc_text = ''Telephone tapping invades privacy.''\<rparr>"

definition doc_b :: doc where
  "doc_b = \<lparr>doc_id = ''d2'', title = ''Puttaswamy'', year = 2017, court = ''SC'',
            level_weight = 1, tags = [''privacy''],
            doc_text = ''Privacy is a fundamental right; limits must meet proportionality.''\<rparr>"

definition two_docs :: retriever where
  "two_docs = \<lparr>docs = [doc_a, doc_b], similarity = (\<lambda>q. Inr [0.9, 0.8])\<rparr>"

definition empty_corpus :: retriever where
  "empty_corpus = \<lparr>docs = [], similarity = (\<lambda>q. Inl ValueError)\<rparr>"

definition tax_case :: case_file where
  "tax_case = \<lparr>case_title = ''Tax'', facts = ''levy'', issues_hint = []\<rparr>"

definition ok_drafter :: "ranked list \<Rightarrow> py_error + string" where
  "ok_drafter rs = Inr ''Brief.''"

section \<open>Properties of the plan\<close>

lemma fromkeys_distinct_id:
  "distinct xs \<Longrightarrow> set xs \<inter> set seen = {} \<Longrightarrow> fromkeys seen xs = xs"
  by (induction xs arbitrary: seen) auto

lemma fromkeys_set: "set (fromkeys seen xs) = set xs - set seen"
  by (induction xs arbitrary: seen) auto

lemma fromkeys_distinct: "distinct (fromkeys seen xs)"
  by (induction xs arbitrary: seen) (auto simp: fromkeys_set)

lemma fromkeys_subseq: "subseq (fromkeys seen xs) xs"
  by (induction xs arbitrary: seen) auto

lemma all_steps_distinct:
  "distinct [step_first, step_suitability, step_necessity, step_balancing, step_religion,
             step_expression, step_trade, step_equality, step_last]"
  by (simp add: step_first_def step_suitability_def step_necessity_def step_balancing_def
      step_religion_def step_expression_def step_trade_def step_equality_def step_last_def)

lemma plan_shape_distinct:
  "distinct ([step_first]
     @ (if b1 then [step_suitability, step_necessity, step_balancing] else [])
     @ (if b2 then [step_religion] else [])
     @ (if b3 then [step_expression] else [])
     @ (if b4 then [step_trade] else [])
     @ (if b5 then [step_equality] else [])
     @ [step_last])"
  using all_steps_distinct
  by (cases b1; cases b2; cases b3; cases b4; cases b5; simp)

lemma plan_candidates_distinct: "distinct (plan_candidates issues)"
  unfolding plan_candidates_def by (rule plan_shape_distinct)

lemma plan_steps_eq: "plan_steps issues = plan_candidates issues"
  by (simp add: plan_steps_def fromkeys_distinct_id plan_candidates_distinct)

text \<open>
  Claim C6, as amended.  For every list of issue tags that contains both \<open>privacy\<close> and
  \<open>biometric\<close>, the plan begins with the fixed legality and aim step, continues with the
  three proportionality sub-steps (suitability, necessity, balancing and safeguards),
  ends with the fixed drafting step, has no step text twice, and keeps the order in which
  the rules produced the steps.
\<close>

theorem plan_steps_privacy_biometric:
  assumes "''privacy'' \<in> set issues" and "''biometric'' \<in> set issues"
  shows "hd (plan_steps issues) = step_first
       \<and> last (plan_steps issues) = step_last
       \<and> take 4 (plan_steps issues)
           = [step_first, step_suitability, step_necessity, step_balancing]
       \<and> distinct (plan_steps issues)
       \<and> subseq (plan_steps issues) (plan_candidates issues)"
proof -
  have d: "distinct (plan_steps issues)"
    and s: "subseq (plan_steps issues) (plan_candidates issues)"
    by (simp_all add: plan_steps_def fromkeys_distinct fromkeys_subseq)
  have shape: "plan_candidates issues =
      [step_first, step_suitability, step_necessity, step_balancing]
      @ ((if ''religion'' \<in> set issues then [step_religion] else [])
         @ (if ''expression'' \<in> set issues then [step_expression] else [])
         @ (if ''trade'' \<in> set issues then [step_trade] else [])
         @ (if ''equality'' \<in> set issues then [step_equality] else [])
         @ [step_last])"
    using assms unfolding plan_candidates_def by simp
  have "hd (plan_steps issues) = step_first"
    "take 4 (plan_steps issues) = [step_first, step_suitability, step_necessity, step_balancing]"
    unfolding plan_steps_eq shape by simp_all
  moreover have "last (plan_steps issues) = step_last"
    unfolding plan_steps_eq plan_candidates_def by simp
  ultimately show ?thesis using d s by simp
qed

theorem plan_steps_privacy_biometric_witness:
  "''privacy'' \<in> set [''biometric'', ''privacy'', ''trade'']
   \<and> ''biometric'' \<in> set [''biometric'', ''privacy'', ''trade'']
   \<and> plan_steps [''biometric'', ''privacy'', ''trade'']
       = [step_first, step_suitability, step_necessity, step_balancing, step_trade, step_last]
   \<and> distinct (plan_steps [''biometric'', ''privacy'', ''trade''])"
  using plan_steps_privacy_biometric[of "[''biometric'', ''privacy'', ''trade'']"]
  by (simp add: plan_steps_eq plan_candidates_def)

text \<open>
  The plan for the tags \<open>privacy\<close> and \<open>biometric\<close> has five steps: the two fixed ones
  and three sub-steps between them, not four.
\<close>

theorem plan_steps_three_substeps:
  "plan_steps [''privacy'', ''biometric'']
     = [step_first, step_suitability, step_necessity, step_balancing, step_last]
   \<and> length (butlast (tl (plan_steps [''privacy'', ''biometric'']))) = 3"
  by (simp add: plan_steps_eq plan_candidates_def)

section \<open>Properties of the score and the confidence\<close>




lemma top_score_mean_Nil: "top_score_mean [] = 0"
  by (simp add: top_score_mean_def)

lemma clamp_bounds: "0.5 \<le> max 0.5 (min 0.9 (x::real)) \<and> max 0.5 (min 0.9 x) \<le> 0.9"
  by simp

lemma clamp_low: "x \<le> 0.5 \<Longrightarrow> max 0.5 (min 0.9 (x::real)) = 0.5"
  by simp

lemma verdict_confidence_Nil: "verdict_confidence q [] = 0.5"
  unfolding verdict_confidence_def Let_def top_score_mean_Nil
  by (rule clamp_low) simp

text \<open>
  Claim C7.  For every query and every list of retrieved results the confidence lies in
  [0.5, 0.9]; for the empty list the mean of the top scores is 0 and the confidence is
  exactly 0.5.
\<close>

theorem verdict_confidence_range:
  "0.5 \<le> verdict_confidence q rs \<and> verdict_confidence q rs \<le> 0.9
   \<and> top_score_mean [] = 0 \<and> verdict_confidence q [] = 0.5"
proof -
  have "0.5 \<le> verdict_confidence q rs \<and> verdict_confidence q rs \<le> 0.9"
    unfolding verdict_confidence_def Let_def by (rule clamp_bounds)
  then show ?thesis by (simp add: top_score_mean_Nil verdict_confidence_Nil)
qed

section \<open>Properties of the feedback store\<close>

subsection \<open>Errors of the file\<close>

lemma load_Missing: "load (w\<lparr>fb_file := Missing\<rparr>) = DEFAULT_FEEDBACK_copy"
  by (simp add: load_def path_exists_def)

lemma load_Broken: "load (w\<lparr>fb_file := Broken e\<rparr>) = DEFAULT_FEEDBACK_copy"
  by (simp add: load_def path_exists_def read_json_def bind_err_def)

lemma save_default_boosts: "default_boosts (save wo data w) = default_boosts w"
  by (cases wo) (simp_all add: save_def write_json_def)

lemma save_OpenRaises: "fb_file (save OpenRaises data w) = fb_file w"
  by (simp add: save_def write_json_def)

lemma save_DumpRaises: "fb_file (save DumpRaises data w) = Broken JSONDecodeError"
  by (simp add: save_def write_json_def)

lemma record_feedback_fst:
  "fst (record_feedback wo up ids nts w) = fst (record_feedback Written up ids nts w)"
  by (simp add: record_feedback_def Let_def)

lemma record_feedback_default_boosts:
  "default_boosts (snd (record_feedback wo up ids nts w))
     = default_boosts (snd (record_feedback Written up ids nts w))"
  by (simp add: record_feedback_def Let_def save_default_boosts)

lemma record_feedback_OpenRaises:
  "fb_file (snd (record_feedback OpenRaises up ids nts w)) = fb_file w"
  by (simp add: record_feedback_def Let_def save_OpenRaises split: boosts_ref.splits)

lemma record_feedback_DumpRaises:
  "fb_file (snd (record_feedback DumpRaises up ids nts w)) = Broken JSONDecodeError"
  by (simp add: record_feedback_def Let_def save_DumpRaises)

lemma load_file_Broken: "fb_file w = Broken e \<Longrightarrow> load w = DEFAULT_FEEDBACK_copy"
  by (simp add: load_def path_exists_def read_json_def bind_err_def)

text \<open>
  No exception leaves \<open>_load\<close> or \<open>_save\<close>.  \<open>_load\<close> returns the copy of
  \<open>DEFAULT_FEEDBACK\<close> when the file is missing and when reading or parsing it raises,
  whatever the exception.  \<open>record_feedback\<close> returns the same updated dictionary
  whether the write succeeds or raises: when \<open>open\<close> raises the file is left as it was,
  and when \<open>json.dump\<close> raises the next \<open>_load\<close> returns the copy again.  The copy is
  shallow: its counters are 0, 1 and 1, and its \<open>doc_boosts\<close> is the dictionary held by
  \<open>DEFAULT_FEEDBACK\<close> itself, whatever it holds by then.
\<close>

lemma feedback_errors_swallowed:
  "load (w\<lparr>fb_file := Missing\<rparr>) = DEFAULT_FEEDBACK_copy
   \<and> load (w\<lparr>fb_file := Broken e\<rparr>) = DEFAULT_FEEDBACK_copy
   \<and> boosts_of w DEFAULT_FEEDBACK_copy = default_boosts w
   \<and> fst (record_feedback wo up ids nts w) = fst (record_feedback Written up ids nts w)
   \<and> default_boosts (snd (record_feedback wo up ids nts w))
       = default_boosts (snd (record_feedback Written up ids nts w))
   \<and> fb_file (snd (record_feedback OpenRaises up ids nts w)) = fb_file w
   \<and> load (snd (record_feedback DumpRaises up ids nts w)) = DEFAULT_FEEDBACK_copy"
  using record_feedback_fst[of wo up ids nts w] record_feedback_default_boosts[of wo up ids nts w]
    load_file_Broken[OF record_feedback_DumpRaises]
  by (simp add: load_Missing load_Broken record_feedback_OpenRaises boosts_of_def
      DEFAULT_FEEDBACK_copy_def)

subsection \<open>Rounding\<close>

lemma round_half_even_bounds:
  assumes "of_int a \<le> y" and "y \<le> of_int b"
  shows "a \<le> round_half_even y \<and> round_half_even y \<le> b"
proof -
  have f1: "a \<le> \<lfloor>y\<rfloor>" using assms(1) by (simp add: le_floor_iff)
  have f2: "\<lfloor>y\<rfloor> \<le> b" using assms(2) by (simp add: floor_le_iff)
  have f3: "y \<noteq> of_int \<lfloor>y\<rfloor> \<Longrightarrow> \<lfloor>y\<rfloor> + 1 \<le> b"
  proof -
    assume "y \<noteq> of_int \<lfloor>y\<rfloor>"
    then have "of_int \<lfloor>y\<rfloor> < y" using of_int_floor_le[of y] by linarith
    then have "of_int \<lfloor>y\<rfloor> < (of_int b :: real)" using assms(2) by linarith
    then show ?thesis by simp
  qed
  show ?thesis
    using f1 f2 f3 by (auto simp: round_half_even_def Let_def)
qed

lemma round_half_even_of_int: "round_half_even (of_int k) = k"
  by (simp add: round_half_even_def)

lemma py_round_exact: "x * 10 ^ n = of_int k \<Longrightarrow> py_round x n = x"
  by (simp add: py_round_def round_half_even_of_int field_simps)

lemma py_round_clip_bounds:
  "- 0.2 \<le> py_round (max (- 0.2) (min 0.2 c)) 4 \<and> py_round (max (- 0.2) (min 0.2 c)) 4 \<le> 0.2"
proof -
  define x :: real where "x = max (- 0.2) (min 0.2 c)"
  have "of_int (- 2000) \<le> x * 10 ^ 4" "x * 10 ^ 4 \<le> of_int 2000"
    by (simp_all add: x_def max_def min_def)
  from round_half_even_bounds[OF this]
  have "- 2000 \<le> round_half_even (x * 10 ^ 4)" "round_half_even (x * 10 ^ 4) \<le> 2000"
    by simp_all
  then have "- 2000 \<le> (of_int (round_half_even (x * 10 ^ 4)) :: real)"
    "(of_int (round_half_even (x * 10 ^ 4)) :: real) \<le> 2000" by linarith+
  then show ?thesis unfolding x_def[symmetric] py_round_def by simp
qed

lemma py_round_eval:
  "py_round (1 / 50) 4 = 1 / 50" "py_round (1 / 25) 4 = 1 / 25" "py_round 0 4 = 0"
  by (simp_all add: py_round_def round_half_even_def Let_def)

subsection \<open>Boosts\<close>

lemma boost_step_val:
  "boost_val (boost_step delta m x) d
     = (if x = d then bump delta (boost_val m d) else boost_val m d)"
  by (simp add: boost_step_def boost_val_def bump_def Let_def)

lemma foldl_boost_step_val:
  "boost_val (foldl (boost_step delta) m ids) d
     = (bump delta ^^ count_list ids d) (boost_val m d)"
proof (induction ids arbitrary: m)
  case Nil
  then show ?case by simp
next
  case (Cons x ids)
  show ?case
    by (simp add: Cons.IH boost_step_val funpow_swap1)
qed

lemma boost_step_ok: "boosts_ok m \<Longrightarrow> boosts_ok (boost_step delta m x)"
  unfolding boosts_ok_def boost_step_def Let_def
  using py_round_clip_bounds by (auto simp: ran_def)

lemma foldl_boost_step_ok: "boosts_ok m \<Longrightarrow> boosts_ok (foldl (boost_step delta) m ids)"
  by (induction ids arbitrary: m) (simp_all add: boost_step_ok)

text \<open>After a call whose write succeeds, the stored boosts are the loop's result.\<close>

lemma get_doc_boosts_written:
  "get_doc_boosts (snd (record_feedback Written up (Some ids) nts w))
     = foldl (boost_step (if up then 0.02 else - 0.02)) (get_doc_boosts w) ids"
  by (simp add: record_feedback_def Let_def save_def write_json_def get_doc_boosts_def
      load_def path_exists_def read_json_def bind_err_def setdefaults_def to_json_def
      boosts_of_def split: boosts_ref.splits)

lemma doc_boost_val: "doc_boost w d = boost_val (get_doc_boosts w) d"
  by (simp add: doc_boost_def boost_val_def)

lemma apply_event_val:
  assumes "ev_write e = Written" and "count_list (ev_ids e) d = 1"
  shows "doc_boost (apply_event w e) d = bump (if ev_up e then 0.02 else - 0.02) (doc_boost w d)"
  using assms
  by (simp add: apply_event_def doc_boost_val get_doc_boosts_written foldl_boost_step_val)

lemma run_events_val:
  assumes "\<forall>e \<in> set evs. ev_write e = Written \<and> count_list (ev_ids e) d = 1"
  shows "doc_boost (run_events w evs) d
       = foldl (\<lambda>b up. bump (if up then 0.02 else - 0.02) b) (doc_boost w d) (map ev_up evs)"
  using assms
proof (induction evs arbitrary: w)
  case Nil
  then show ?case by (simp add: run_events_def)
next
  case (Cons e evs)
  have "doc_boost (run_events (apply_event w e) evs) d
      = foldl (\<lambda>b up. bump (if up then 0.02 else - 0.02) b) (doc_boost (apply_event w e) d)
          (map ev_up evs)"
    using Cons.IH[of "apply_event w e"] Cons.prems by simp
  then show ?case
    using Cons.prems by (simp add: run_events_def apply_event_val)
qed

lemma running_boost_bump:
  "running_boost ups = foldl (\<lambda>b up. bump (if up then 0.02 else - 0.02) b) 0 ups"
  by (simp add: running_boost_def bump_def)

lemma running_boost_snoc:
  "running_boost (ups @ [up]) = bump (if up then 0.02 else - 0.02) (running_boost ups)"
  unfolding running_boost_bump by simp

lemma running_boost_bounds: "- 0.2 \<le> running_boost ups \<and> running_boost ups \<le> 0.2"
proof (induction ups rule: rev_induct)
  case Nil
  then show ?case by (simp add: running_boost_def)
next
  case (snoc up ups)
  show ?case
    unfolding running_boost_snoc bump_def by (rule py_round_clip_bounds)
qed

lemma bump_up_closed: "bump 0.02 (min 0.2 (real n / 50)) = min 0.2 (real (Suc n) / 50)"
proof (cases "n < 10")
  case True
  then have le: "real (Suc n) / 50 \<le> 0.2" by simp
  have a: "min 0.2 (real n / 50) = real n / 50" using True by (simp add: min_def)
  have b: "real n / 50 + 0.02 = real (Suc n) / 50" by (simp add: field_simps)
  have c: "min 0.2 (real (Suc n) / 50) = real (Suc n) / 50" using le by (simp add: min_def)
  have d: "max (- 0.2) (real (Suc n) / 50) = real (Suc n) / 50" by (simp add: max_def)
  have r: "py_round (real (Suc n) / 50) 4 = real (Suc n) / 50"
    by (rule py_round_exact[where k = "200 * int (Suc n)"]) simp
  show ?thesis unfolding bump_def a b c d r ..
next
  case False
  have a: "min 0.2 (real n / 50) = 0.2" using False by (simp add: min_def)
  have b: "min 0.2 (0.2 + 0.02) = (0.2::real)" by simp
  have d: "max (- 0.2) 0.2 = (0.2::real)" by simp
  have c: "min 0.2 (real (Suc n) / 50) = 0.2" using False by (simp add: min_def)
  have r: "py_round 0.2 4 = 0.2"
    by (rule py_round_exact[where k = 2000]) simp
  show ?thesis unfolding bump_def a b c d r ..
qed

lemma running_boost_ups: "running_boost (replicate n True) = min 0.2 (real n / 50)"
proof (induction n)
  case 0
  then show ?case by (simp add: running_boost_def)
next
  case (Suc n)
  have snoc: "replicate (Suc n) True = replicate n True @ [True]"
    by (simp add: replicate_append_same)
  have "running_boost (replicate (Suc n) True) = bump 0.02 (running_boost (replicate n True))"
    unfolding running_boost_bump snoc by simp
  then show ?case by (simp only: Suc.IH bump_up_closed)
qed

lemma round_ups: "py_round (0.02 * real n) 4 = real n / 50"
proof -
  have "py_round (0.02 * real n) 4 = 0.02 * real n"
    by (rule py_round_exact[where k = "200 * int n"]) simp
  then show ?thesis by simp
qed

lemma initial_no_boost: "get_doc_boosts initial_world d = None"
  by (simp add: get_doc_boosts_def initial_world_def load_def path_exists_def boosts_of_def
      DEFAULT_FEEDBACK_copy_def)

lemma initial_boosts_empty: "get_doc_boosts initial_world = Map.empty"
  by (rule ext) (simp add: initial_no_boost)

text \<open>
  Claim C3, as amended.  Start from a state that stores no boost for the id \<open>d\<close>, and
  run feedback events each of which is written to the file and lists \<open>d\<close> exactly once.
  Then the stored boost of \<open>d\<close> is the running sum of the +0.02 and -0.02 deltas, clipped
  to [-0.2, 0.2] and rounded to four places at each step; it lies in [-0.2, 0.2]; and
  when all \<open>N\<close> events are thumbs up it is \<open>min(0.2, round(0.02 N, 4))\<close>.
\<close>

theorem boost_after_events:
  assumes "get_doc_boosts w d = None"
    and "\<forall>e \<in> set evs. ev_write e = Written \<and> count_list (ev_ids e) d = 1"
  shows "doc_boost (run_events w evs) d = running_boost (map ev_up evs)
       \<and> - 0.2 \<le> doc_boost (run_events w evs) d
       \<and> doc_boost (run_events w evs) d \<le> 0.2
       \<and> ((\<forall>e \<in> set evs. ev_up e) \<longrightarrow>
            doc_boost (run_events w evs) d = min 0.2 (py_round (0.02 * real (length evs)) 4))"
proof -
  have start: "doc_boost w d = 0" using assms(1) by (simp add: doc_boost_def)
  have eq: "doc_boost (run_events w evs) d = running_boost (map ev_up evs)"
    using run_events_val[OF assms(2), of w] by (simp add: start running_boost_bump)
  have ups: "running_boost (map ev_up evs) = min 0.2 (py_round (0.02 * real (length evs)) 4)"
    if "\<forall>e \<in> set evs. ev_up e"
  proof -
    have "map ev_up evs = replicate (length evs) True"
      using that by (induction evs) simp_all
    then show ?thesis by (simp only: running_boost_ups round_ups)
  qed
  show ?thesis using eq ups running_boost_bounds[of "map ev_up evs"] by simp
qed

theorem boost_after_events_witness:
  "get_doc_boosts initial_world ''a'' = None
   \<and> list_all (\<lambda>e. ev_write e = Written \<and> count_list (ev_ids e) ''a'' = 1)
        [ev_up_a, ev_down_a, ev_up_a]
   \<and> doc_boost (run_events initial_world [ev_up_a, ev_down_a, ev_up_a]) ''a'' = 0.02
   \<and> doc_boost (run_events initial_world [ev_up_a, ev_up_a]) ''a''
       = min 0.2 (py_round (0.02 * 2) 4)"
  using boost_after_events[of initial_world "''a''" "[ev_up_a, ev_down_a, ev_up_a]"]
    boost_after_events[of initial_world "''a''" "[ev_up_a, ev_up_a]"]
  by (simp add: initial_no_boost ev_up_a_def ev_down_a_def running_boost_def py_round_eval)

text \<open>
  One thumbs-up event that lists the id twice leaves the boost 0.04, not
  \<open>min(0.2, round(0.02 * 1, 4)) = 0.02\<close>; and of two thumbs-up events the second of which
  could not open the file for writing, the stored boost is 0.02, not 0.04.
\<close>

theorem boost_counted_per_occurrence:
  "get_doc_boosts initial_world ''a'' = None
   \<and> doc_boost (run_events initial_world [ev_up_twice]) ''a'' = 0.04
   \<and> min 0.2 (py_round (0.02 * 1) 4) = 0.02
   \<and> doc_boost (run_events initial_world [ev_up_a, ev_up_unsaved]) ''a'' = 0.02
   \<and> min 0.2 (py_round (0.02 * 2) 4) = 0.04"
  by (simp add: initial_no_boost run_events_def apply_event_def ev_up_twice_def ev_up_a_def
      ev_up_unsaved_def doc_boost_def get_doc_boosts_written boost_step_def Let_def py_round_eval
      get_doc_boosts_def load_def record_feedback_def initial_world_def path_exists_def
      save_def write_json_def read_json_def bind_err_def setdefaults_def to_json_def
      boosts_of_def DEFAULT_FEEDBACK_copy_def)

subsection \<open>The invariant\<close>

lemma default_copy_ok: "boosts_ok (default_boosts w) \<Longrightarrow> feedback_ok w DEFAULT_FEEDBACK_copy"
  by (simp add: feedback_ok_def DEFAULT_FEEDBACK_copy_def counter_ok_def boosts_of_def)

lemma setdefaults_ok:
  "boosts_ok (default_boosts w) \<Longrightarrow> stored_ok j \<Longrightarrow> feedback_ok w (setdefaults j)"
  by (auto simp: feedback_ok_def setdefaults_def stored_ok_def counter_ok_def boosts_of_def
      split: option.splits)

lemma load_ok: "world_ok w \<Longrightarrow> feedback_ok w (load w)"
  by (cases "fb_file w")
     (simp_all add: world_ok_def load_def path_exists_def read_json_def bind_err_def
        default_copy_ok setdefaults_ok)

lemma counter_bump_ok: "counter_ok c \<Longrightarrow> counter_ok (min 2 (c + 1))"
  by (simp add: counter_ok_def)

lemma to_json_ok: "feedback_ok w data \<Longrightarrow> stored_ok (to_json w data)"
  by (simp add: feedback_ok_def stored_ok_def to_json_def)

lemma save_ok: "world_ok w \<Longrightarrow> feedback_ok w data \<Longrightarrow> world_ok (save wo data w)"
  by (cases wo) (simp_all add: save_def write_json_def world_ok_def to_json_ok)

lemma save_boosts_of: "boosts_of (save wo data w) data' = boosts_of w data'"
  by (simp add: boosts_of_def save_default_boosts split: boosts_ref.splits)

lemma save_feedback_ok: "feedback_ok (save wo data w) data' = feedback_ok w data'"
  by (simp add: feedback_ok_def save_boosts_of)

lemma record_feedback_ok:
  assumes "world_ok w"
  shows "world_ok (snd (record_feedback wo up ids nts w))
       \<and> feedback_ok (snd (record_feedback wo up ids nts w))
            (fst (record_feedback wo up ids nts w))"
proof -
  define data0 where "data0 = load w"
  define data1 where "data1 =
    (if up
     then data0\<lparr>style_citations := min 2 (style_citations data0 + 1),
               emphasis_proportionality := min 2 (emphasis_proportionality data0 + 1)\<rparr>
     else data0\<lparr>style_bullets := min 2 (style_bullets data0 + 1)\<rparr>)"
  define idl where "idl = (case ids of None \<Rightarrow> [] | Some l \<Rightarrow> l)"
  define delta :: real where "delta = (if up then 0.02 else - 0.02)"
  define bs where "bs = foldl (boost_step delta) (boosts_of w data1) idl"
  define w1 where "w1 =
    (case doc_boosts data1 of DefaultBoosts \<Rightarrow> w\<lparr>default_boosts := bs\<rparr> | OwnBoosts m \<Rightarrow> w)"
  define data2 where "data2 =
    (case doc_boosts data1 of
       DefaultBoosts \<Rightarrow> data1
     | OwnBoosts m \<Rightarrow> data1\<lparr>doc_boosts := OwnBoosts bs\<rparr>)"
  define data3 where "data3 = (if nts \<noteq> [] then data2\<lparr>last_notes := Some nts\<rparr> else data2)"
  have rf: "record_feedback wo up ids nts w = (data3, save wo data3 w1)"
    unfolding record_feedback_def Let_def data3_def data2_def w1_def bs_def delta_def idl_def
      data1_def data0_def by (rule refl)
  have ok0: "feedback_ok w data0" using assms by (simp add: data0_def load_ok)
  have ok1: "feedback_ok w data1"
    using ok0 by (simp add: data1_def feedback_ok_def counter_bump_ok boosts_of_def)
  have bs_ok: "boosts_ok bs"
    using ok1 by (simp add: bs_def feedback_ok_def foldl_boost_step_ok)
  have w1_ok: "world_ok w1"
    using assms bs_ok by (simp add: w1_def world_ok_def split: boosts_ref.splits)
  have ok2: "feedback_ok w1 data2"
    using ok1 bs_ok
    by (simp add: data2_def w1_def feedback_ok_def boosts_of_def split: boosts_ref.splits)
  have ok3: "feedback_ok w1 data3"
    using ok2 by (simp add: data3_def feedback_ok_def boosts_of_def)
  show ?thesis
    unfolding rf using w1_ok ok3 by (simp add: save_ok save_feedback_ok)
qed

lemma reachable_ok: "reachable w \<Longrightarrow> world_ok w"
proof (induction rule: reachable.induct)
  case start
  then show ?case by (simp add: world_ok_def initial_world_def boosts_ok_def)
next
  case (step w wo up ids nts)
  then show ?case using record_feedback_ok by blast
next
  case (restart w)
  then show ?case by (simp add: world_ok_def boosts_ok_def)
qed

text \<open>
  Claim C4.  In every state reached by feedback events from a fresh process, after every
  further call of \<open>record_feedback\<close> each of the three style counters of the returned
  dictionary lies in [0, 2] and every value of its \<open>doc_boosts\<close> lies in [-0.2, 0.2];
  the same holds for the boosts the ranker reads afterwards and for the state a later
  \<open>_load\<close> returns.
\<close>

theorem feedback_invariant:
  assumes "reachable w" and "record_feedback wo up ids nts w = (data, w')"
  shows "0 \<le> style_bullets data \<and> style_bullets data \<le> 2
       \<and> 0 \<le> style_citations data \<and> style_citations data \<le> 2
       \<and> 0 \<le> emphasis_proportionality data \<and> emphasis_proportionality data \<le> 2
       \<and> (\<forall>d v. boosts_of w' data d = Some v \<longrightarrow> - 0.2 \<le> v \<and> v \<le> 0.2)
       \<and> (\<forall>d v. get_doc_boosts w' d = Some v \<longrightarrow> - 0.2 \<le> v \<and> v \<le> 0.2)
       \<and> feedback_ok w' (load w')"
proof -
  have ok: "world_ok w'" "feedback_ok w' data"
    using record_feedback_ok[OF reachable_ok[OF assms(1)], of wo up ids nts] assms(2)
    by simp_all
  have l: "feedback_ok w' (load w')" using ok(1) by (rule load_ok)
  have r: "boosts_ok m \<Longrightarrow> \<forall>d v. m d = Some v \<longrightarrow> - 0.2 \<le> v \<and> v \<le> 0.2" for m
    by (auto simp: boosts_ok_def ran_def)
  have b1: "boosts_ok (boosts_of w' data)" and b2: "boosts_ok (get_doc_boosts w')"
    using ok(2) l by (simp_all add: feedback_ok_def get_doc_boosts_def)
  have "\<forall>d v. boosts_of w' data d = Some v \<longrightarrow> - 0.2 \<le> v \<and> v \<le> 0.2"
    using b1 by (rule r)
  moreover have "\<forall>d v. get_doc_boosts w' d = Some v \<longrightarrow> - 0.2 \<le> v \<and> v \<le> 0.2"
    using b2 by (rule r)
  ultimately show ?thesis
    using ok(2) l by (simp add: feedback_ok_def counter_ok_def)
qed

theorem feedback_invariant_witness:
  "reachable initial_world
   \<and> style_bullets (fst (record_feedback Written True (Some [''a'']) [] initial_world)) = 0
   \<and> style_citations (fst (record_feedback Written True (Some [''a'']) [] initial_world)) = 2
   \<and> get_doc_boosts (snd (record_feedback Written True (Some [''a'']) [] initial_world)) ''a''
       = Some 0.02
   \<and> feedback_ok (snd (record_feedback Written True (Some [''a'']) [] initial_world))
        (load (snd (record_feedback Written True (Some [''a'']) [] initial_world)))"
proof -
  have r: "reachable initial_world" by (rule reachable.start)
  have b: "get_doc_boosts (snd (record_feedback Written True (Some [''a'']) [] initial_world))
             ''a'' = Some 0.02"
    by (simp add: get_doc_boosts_written initial_boosts_empty boost_step_def Let_def
        py_round_eval)
  have c: "style_citations (fst (record_feedback Written True (Some [''a'']) [] initial_world))
             = 2"
    "style_bullets (fst (record_feedback Written True (Some [''a'']) [] initial_world)) = 0"
    by (simp_all add: record_feedback_def Let_def load_def initial_world_def path_exists_def
        DEFAULT_FEEDBACK_copy_def)
  show ?thesis
    using feedback_invariant[OF r surjective_pairing, of Written True "Some [''a'']" "[]"]
      r b c by simp
qed

subsection \<open>The default state\<close>

lemma unsaved_world_reachable: "reachable unsaved_world"
  unfolding unsaved_world_def by (rule reachable.step) (rule reachable.start)

text \<open>
  Claim C8 fails on the code.  The claim is that \<open>_load\<close> returns the default state
  when the file is missing or cannot be read.  \<open>DEFAULT_FEEDBACK.copy()\<close> is a shallow
  copy, so the \<open>doc_boosts\<close> of what \<open>_load\<close> returns is the dictionary of
  \<open>DEFAULT_FEEDBACK\<close> itself, and \<open>record_feedback\<close> assigns into it when there is no
  file.  In a fresh process without a file \<open>_load\<close> returns the default state, with no
  boosts.  After one thumbs-up for the document \<open>a\<close> whose write fails there is still no
  file, and \<open>_load\<close> returns a state whose \<open>doc_boosts\<close> is \<open>{"a": 0.02}\<close>, which the
  ranker then reads.
\<close>

theorem load_returns_changed_default:
  "fb_file initial_world = Missing
   \<and> boosts_of initial_world (load initial_world) = Map.empty
   \<and> fb_file unsaved_world = Missing
   \<and> load unsaved_world = DEFAULT_FEEDBACK_copy
   \<and> boosts_of unsaved_world (load unsaved_world) = Map.empty(''a'' \<mapsto> 0.02)
   \<and> get_doc_boosts unsaved_world ''a'' = Some 0.02"
  by (simp add: unsaved_world_def record_feedback_def Let_def load_def initial_world_def
      path_exists_def DEFAULT_FEEDBACK_copy_def get_doc_boosts_def boosts_of_def save_def
      write_json_def boost_step_def py_round_eval)

section \<open>Properties of the retriever\<close>

lemma bind_err_Inr: "bind_err (Inr x) f = f x"
  by (simp add: bind_err_def)

lemma map_err_Inr:
  "(\<And>x. x \<in> set xs \<Longrightarrow> f x = Inr (g x)) \<Longrightarrow> map_err f xs = Inr (map g xs)"
  by (induction xs) (simp_all add: bind_err_def)

lemma mset_upt_set: "mset p = mset [0..<n] \<Longrightarrow> set p = {0..<n}"
  by (metis atLeastLessThan_upt set_mset_mset)

lemma mset_upt_length: "mset p = mset [0..<n] \<Longrightarrow> length p = n"
  by (metis length_upt minus_nat.diff_0 size_mset)

lemma mset_upt_distinct: "mset p = mset [0..<n] \<Longrightarrow> distinct p"
  by (metis distinct_upt mset_eq_imp_distinct_iff)

lemma np_take_Inr:
  "set idxs \<subseteq> {0..<length a} \<Longrightarrow> np_take a idxs = Inr (map (nth a) idxs)"
  by (auto simp: np_take_def list_all_iff)

lemma mset_map_nth_perm:
  assumes "mset q = mset [0..<length p]"
  shows "mset (map (nth p) q) = mset p"
proof -
  have "mset (map (nth p) q) = image_mset (nth p) (mset q)" by simp
  also have "\<dots> = image_mset (nth p) (mset [0..<length p])" using assms by simp
  also have "\<dots> = mset (map (nth p) [0..<length p])" by simp
  also have "\<dots> = mset p" by (simp add: map_nth)
  finally show ?thesis .
qed

text \<open>With \<open>kth\<close> the last position (or the array empty) \<open>argpartition\<close> does not raise.\<close>

lemma np_argpartition_all:
  assumes "numpy_contract np" and "kth = int (length a) - 1"
  shows "\<exists>p. np_argpartition np a kth = Inr p \<and> mset p = mset [0..<length a]"
proof (cases "a = []")
  case True
  then have "is_argpartition a (nat (kth + int (length a)))
               (select_order np a (nat (kth + int (length a))))"
    using assms(1) by (simp add: numpy_contract_def)
  then show ?thesis
    using True assms(2) by (simp add: np_argpartition_def is_argpartition_def)
next
  case False
  then have pos: "0 < length a" by simp
  then have "nat kth < length a" using assms(2) by arith
  then have "is_argpartition a (nat kth) (select_order np a (nat kth))"
    using assms(1) by (simp add: numpy_contract_def)
  then show ?thesis
    using pos assms(2) by (simp add: np_argpartition_def is_argpartition_def Let_def)
qed

lemma np_argsort_perm:
  "numpy_contract np \<Longrightarrow> mset (np_argsort np a) = mset [0..<length a]"
  by (simp add: numpy_contract_def np_argsort_def is_argsort_def)

text \<open>The stable sort meets the contract.\<close>

lemma stable_argsort_is_argsort: "is_argsort a (stable_argsort a)"
  by (simp add: is_argsort_def stable_argsort_def)

lemma stable_argsort_is_argpartition:
  assumes "a = [] \<or> kth < length a"
  shows "is_argpartition a kth (stable_argsort a)"
proof -
  define p where "p = stable_argsort a"
  have m: "mset p = mset [0..<length a]" by (simp add: p_def stable_argsort_def)
  have lp: "length p = length a" using mset_upt_length[OF m] .
  have s: "sorted (map (nth a) p)" by (simp add: p_def stable_argsort_def)
  have "a ! (p ! i) \<le> a ! (p ! j)" if "i \<le> j" "j < length p" for i j
    using sorted_nth_mono[OF s, of i j] that by simp
  then have "list_all (\<lambda>i. (i \<le> kth \<longrightarrow> a ! (p ! i) \<le> a ! (p ! kth)) \<and>
                   (kth \<le> i \<longrightarrow> a ! (p ! kth) \<le> a ! (p ! i))) [0..<length p]"
    using assms lp by (auto simp: list_all_iff)
  then show ?thesis using m by (simp add: is_argpartition_def p_def)
qed

lemma stable_numpy_contract: "numpy_contract stable_numpy"
  by (simp add: numpy_contract_def stable_numpy_def stable_argsort_is_argsort
      stable_argsort_is_argpartition)

text \<open>Two distinct keys leave the routines no choice.\<close>

lemma perm_of_two:
  assumes "mset p = mset [0, Suc 0]"
  shows "p = [0, Suc 0] \<or> p = [Suc 0, 0]"
proof -
  have "length p = 2" using mset_eq_length[OF assms] by simp
  then obtain x y where p: "p = [x, y]"
    by (auto simp: length_Suc_conv numeral_2_eq_2)
  show ?thesis using assms unfolding p by (auto simp: add_eq_conv_diff)
qed

lemma two_keys_sort:
  assumes "numpy_contract np" and "x < y"
  shows "sort_order np [x, y] = [0, 1]"
proof -
  have a: "is_argsort [x, y] (sort_order np [x, y])"
    using assms(1) by (simp add: numpy_contract_def)
  then have "mset (sort_order np [x, y]) = mset [0, Suc 0]"
    by (simp add: is_argsort_def upt_rec)
  from perm_of_two[OF this] a assms(2) show ?thesis
    by (auto simp: is_argsort_def)
qed

lemma two_keys_partition:
  assumes "numpy_contract np" and "x < y"
  shows "select_order np [x, y] 1 = [0, 1]"
proof -
  have a: "is_argpartition [x, y] 1 (select_order np [x, y] 1)"
    using assms(1) by (simp add: numpy_contract_def)
  then have "mset (select_order np [x, y] 1) = mset [0, Suc 0]"
    by (simp add: is_argpartition_def upt_rec)
  from perm_of_two[OF this] a assms(2) show ?thesis
    by (auto simp: is_argpartition_def upt_rec)
qed

lemma kws_tax: "issue_keywords ''Tax. levy'' = []"
  by code_simp

lemma doc_boost_initial: "doc_boost initial_world d = 0"
  by (simp add: doc_boost_def initial_no_boost)

lemma score_a: "precedent_score initial_world (9 / 10) doc_a [] = 0.515"
  by (simp add: precedent_score_def Let_def doc_boost_initial recency_def issue_overlap_def
      doc_a_def)

lemma score_b: "precedent_score initial_world (4 / 5) doc_b [] = 0.73"
  by (simp add: precedent_score_def Let_def doc_boost_initial recency_def issue_overlap_def
      doc_b_def)

lemma retrieve_two_docs:
  assumes "numpy_contract np" and "2 \<le> k"
  shows "retrieve np two_docs initial_world ''Tax. levy'' k
   = Inr [\<lparr>score = 0.515, rdoc = doc_a\<rparr>, \<lparr>score = 0.73, rdoc = doc_b\<rparr>]"
proof -
  have p: "select_order np [- (9 / 10), - (4 / 5)] (Suc 0) = [0, Suc 0]"
    using two_keys_partition[OF assms(1), of "- (9 / 10)" "- (4 / 5)"] by simp
  have s: "sort_order np [- (9 / 10), - (4 / 5)] = [0, Suc 0]"
    using two_keys_sort[OF assms(1), of "- (9 / 10)" "- (4 / 5)"] by simp
  have k: "min k 2 = 2" using assms(2) by simp
  show ?thesis
    by (simp add: retrieve_def Let_def kws_tax two_docs_def embs_product_def
        np_argpartition_def p bind_err_def k
        py_prefix_def np_take_def np_argsort_def s py_getitem_def score_a score_b)
qed

lemma retrieve_embedding_error:
  "docs r \<noteq> [] \<Longrightarrow> similarity r q = Inl e \<Longrightarrow> retrieve np r w q k = Inl e"
  by (simp add: retrieve_def Let_def bind_err_def embs_product_def)

text \<open>
  Over a corpus with documents the clamp \<open>k = min(k, len(self.docs))\<close> does what it is
  there for: when \<open>k\<close> exceeds the number of documents, \<open>retrieve\<close> does not raise and
  returns every document exactly once, the documents at the positions \<open>idxs\<close>, a list
  without repetition of all positions.  Here the embedding model has returned the
  similarity vector, with one entry per document (an exception raised by it passes
  through \<open>retrieve\<close>, see \<open>retrieve_embedding_error\<close>), the NumPy routines meet their
  contract, and the feedback file holds values of the types the module writes.
\<close>

lemma retrieve_all_of_nonempty:
  assumes np: "numpy_contract np"
    and ne: "docs r \<noteq> []"
    and sim: "similarity r q = Inr sims"
    and len: "length sims = length (docs r)"
    and k: "int (length (docs r)) < k"
  shows "\<exists>res idxs. retrieve np r w q k = Inr res
           \<and> length res = length (docs r)
           \<and> mset (map rdoc res) = mset (docs r)
           \<and> distinct idxs \<and> set idxs = {0..<length (docs r)}
           \<and> map rdoc res = map (nth (docs r)) idxs"
proof -
  define n where "n = length (docs r)"
  define kws where "kws = issue_keywords q"
  have ep: "embs_product r q = Inr sims" using ne sim by (simp add: embs_product_def)
  have kmin: "min k (int (length (docs r))) = int n" using k by (simp add: n_def)
  have lsims: "length sims = n" using len by (simp add: n_def)
  obtain part where part: "np_argpartition np (map uminus sims) (int n - 1) = Inr part"
    and mpart: "mset part = mset [0..<n]"
    using np_argpartition_all[OF np, of "int n - 1" "map uminus sims"] lsims by auto
  have lpart: "length part = n" and spart: "set part = {0..<n}"
    using mpart by (simp_all add: mset_upt_length mset_upt_set)
  have pre: "py_prefix part (int n) = part" by (simp add: py_prefix_def lpart)
  have t1: "np_take sims part = Inr (map (nth sims) part)"
    by (rule np_take_Inr) (simp add: spart lsims)
  define perm where "perm = np_argsort np (map uminus (map (nth sims) part))"
  have mperm: "mset perm = mset [0..<length part]"
    unfolding perm_def using np_argsort_perm[OF np, of "map uminus (map (nth sims) part)"]
    by simp
  have t2: "np_take part perm = Inr (map (nth part) perm)"
    by (rule np_take_Inr) (simp add: mset_upt_set[OF mperm])
  define idxs where "idxs = map (nth part) perm"
  have midxs: "mset idxs = mset [0..<n]"
    unfolding idxs_def using mset_map_nth_perm[OF mperm] mpart by simp
  have sidxs: "set idxs = {0..<n}" and didxs: "distinct idxs"
    using midxs by (simp_all add: mset_upt_set mset_upt_distinct)
  define mk where "mk = (\<lambda>idx. \<lparr>score = precedent_score w (sims ! idx) (docs r ! idx) kws,
                              rdoc = docs r ! idx\<rparr>)"
  have t3: "map_err (\<lambda>idx.
              bind_err (py_getitem (docs r) idx) (\<lambda>d.
              bind_err (py_getitem sims idx) (\<lambda>sim.
              Inr \<lparr>score = precedent_score w sim d kws, rdoc = d\<rparr>))) idxs = Inr (map mk idxs)"
    by (rule map_err_Inr)
       (simp add: sidxs py_getitem_def bind_err_def lsims n_def[symmetric] mk_def)
  have res: "retrieve np r w q k = Inr (map mk idxs)"
    unfolding retrieve_def Let_def ep bind_err_Inr kmin kws_def[symmetric] part
      pre t1 perm_def[symmetric] t2 idxs_def[symmetric] t3 ..
  have rd: "map rdoc (map mk idxs) = map (nth (docs r)) idxs" by (simp add: mk_def)
  have "mset (map (nth (docs r)) idxs) = mset (docs r)"
    using midxs unfolding n_def by (rule mset_map_nth_perm)
  then have m: "mset (map rdoc (map mk idxs)) = mset (docs r)" unfolding rd .
  have l: "length (map mk idxs) = length (docs r)"
    using mset_upt_length[OF midxs] by (simp add: n_def)
  from res l m didxs sidxs[unfolded n_def] rd show ?thesis by blast
qed

lemma retrieve_all_of_two_docs:
  "map rdoc (projr (retrieve stable_numpy two_docs initial_world ''Tax. levy'' 5))
     = [doc_a, doc_b]"
  by (simp add: retrieve_two_docs[OF stable_numpy_contract])

text \<open>
  Claim C9 fails on the code.  The claim is that for every document set, the empty set
  included, and every \<open>k\<close> greater than the number of documents \<open>retrieve\<close> returns all
  documents and never raises.  Over a corpus without documents \<open>retrieve\<close> raises
  \<open>ValueError\<close>, for every query, every \<open>k\<close> and every feedback state: the embeddings
  have shape \<open>(0,)\<close> and not the shape \<open>(N, D)\<close> that the comment of the constructor
  states, and the product with the query vector raises before \<open>k\<close> is clamped.
\<close>

theorem retrieve_empty_corpus_raises:
  "docs r = [] \<Longrightarrow> retrieve np r w q k = Inl ValueError"
  by (simp add: retrieve_def Let_def embs_product_def bind_err_def)

theorem retrieve_empty_corpus_raises_witness:
  "docs empty_corpus = []
   \<and> int (length (docs empty_corpus)) < 5
   \<and> retrieve stable_numpy empty_corpus initial_world ''Tax. levy'' 5 = Inl ValueError"
  using retrieve_empty_corpus_raises[where r = empty_corpus and np = stable_numpy
      and w = initial_world and q = "''Tax. levy''" and k = 5]
  by (simp add: empty_corpus_def)

text \<open>
  Claim C1 fails on the code.  \<open>retrieve\<close> selects and orders the documents by the raw
  similarity and computes the combined score afterwards: of the two precedents the older
  one is returned first, with the lower combined score, whatever the NumPy routines do
  with equal keys (the similarities differ).
\<close>

theorem retrieve_ordered_by_similarity:
  assumes "numpy_contract np"
  shows "retrieve np two_docs initial_world ''Tax. levy'' 2
           = Inr [\<lparr>score = 0.515, rdoc = doc_a\<rparr>, \<lparr>score = 0.73, rdoc = doc_b\<rparr>]
         \<and> (0.515 :: real) < 0.73"
  using retrieve_two_docs[OF assms, of 2] by simp

theorem retrieve_ordered_by_similarity_witness:
  "numpy_contract stable_numpy
   \<and> map score (projr (retrieve stable_numpy two_docs initial_world ''Tax. levy'' 2))
       = [0.515, 0.73]
   \<and> (0.515 :: real) < 0.73"
  using retrieve_ordered_by_similarity[OF stable_numpy_contract] stable_numpy_contract
  by simp

section \<open>Properties of the grounding\<close>

lemma fourth_claim_no_key_term: "\<not> any_in key_terms (lower (claims_probe ! 3))"
  by code_simp

lemma cite_a: "cite \<lparr>score = s, rdoc = doc_a\<rparr> = ''PUCL (1997)''"
  by (simp add: cite_def doc_a_def str_of_int_def digit_char_def)

lemma cite_b: "cite \<lparr>score = s, rdoc = doc_b\<rparr> = ''Puttaswamy (2017)''"
  by (simp add: cite_def doc_b_def str_of_int_def digit_char_def)

lemma key_a: "any_in key_terms (lower (doc_text doc_a))"
  by code_simp

lemma key_b: "any_in key_terms (lower (doc_text doc_b))"
  by code_simp

lemma sort_cites:
  "sort (fromkeys [] [''PUCL (1997)'', ''Puttaswamy (2017)''])
     = [''PUCL (1997)'', ''Puttaswamy (2017)'']"
  by code_simp

lemma snippet_a:
  "extract_snippet (doc_text doc_a) key_terms 140 = Some ''Telephone tapping invades privacy.''"
  by code_simp

lemma snippet_b:
  "extract_snippet (doc_text doc_b) key_terms 140
     = Some ''Privacy is a fundamental right; limits must meet proportionality.''"
  by code_simp

lemma run_agent_Inr:
  assumes "retrieve np r w (case_title cf @ ''. '' @ facts cf) 5 = Inr rs"
    and "drafter rs = Inr d"
  shows "run_agent np r w cf drafter =
     Inr \<lparr>plan = plan_steps (issue_keywords (case_title cf @ ''. '' @ facts cf)),
          retrieved = rs,
          grounding = map (probe_grounding rs) claims_probe,
          grounding_snippets = map (probe_snippets rs) claims_probe, draft = d,
          confidence = py_round (verdict_confidence (case_title cf @ ''. '' @ facts cf) rs) 2,
          used_doc_ids = map (\<lambda>d. doc_id (rdoc d)) (take 4 rs)\<rparr>"
  using assms by (simp add: run_agent_def Let_def bind_err_def)

lemma run_agent_fields:
  assumes "run_agent np r w cf drafter = Inr res"
  shows "grounding res = map (probe_grounding (retrieved res)) claims_probe"
    and "grounding_snippets res = map (probe_snippets (retrieved res)) claims_probe"
  using assms by (auto simp: run_agent_def Let_def bind_err_def split: sum.splits)

lemma run_agent_two_docs:
  assumes "numpy_contract np"
  shows "run_agent np two_docs initial_world tax_case ok_drafter =
     Inr \<lparr>plan = plan_steps (issue_keywords (case_title tax_case @ ''. '' @ facts tax_case)),
          retrieved = [\<lparr>score = 0.515, rdoc = doc_a\<rparr>, \<lparr>score = 0.73, rdoc = doc_b\<rparr>],
          grounding = map (probe_grounding
            [\<lparr>score = 0.515, rdoc = doc_a\<rparr>, \<lparr>score = 0.73, rdoc = doc_b\<rparr>]) claims_probe,
          grounding_snippets = map (probe_snippets
            [\<lparr>score = 0.515, rdoc = doc_a\<rparr>, \<lparr>score = 0.73, rdoc = doc_b\<rparr>]) claims_probe,
          draft = ''Brief.'',
          confidence = py_round (verdict_confidence (case_title tax_case @ ''. '' @ facts tax_case)
            [\<lparr>score = 0.515, rdoc = doc_a\<rparr>, \<lparr>score = 0.73, rdoc = doc_b\<rparr>]) 2,
          used_doc_ids = map (\<lambda>d. doc_id (rdoc d))
            (take 4 [\<lparr>score = 0.515, rdoc = doc_a\<rparr>, \<lparr>score = 0.73, rdoc = doc_b\<rparr>])\<rparr>"
proof -
  have r: "retrieve np two_docs initial_world (case_title tax_case @ ''. '' @ facts tax_case) 5
     = Inr [\<lparr>score = 0.515, rdoc = doc_a\<rparr>, \<lparr>score = 0.73, rdoc = doc_b\<rparr>]"
    using retrieve_two_docs[OF assms, of 5] by (simp add: tax_case_def)
  have d: "ok_drafter [\<lparr>score = 0.515, rdoc = doc_a\<rparr>, \<lparr>score = 0.73, rdoc = doc_b\<rparr>]
             = Inr ''Brief.''"
    by (simp add: ok_drafter_def)
  show ?thesis
    by (rule run_agent_Inr[where cf = tax_case and drafter = ok_drafter, OF r d])
qed

lemma grounding_two_docs:
  "map (probe_grounding [\<lparr>score = s1, rdoc = doc_a\<rparr>, \<lparr>score = s2, rdoc = doc_b\<rparr>])
       claims_probe ! 3
     = (claims_probe ! 3, [''PUCL (1997)'', ''Puttaswamy (2017)''])"
  by (simp add: probe_grounding_def Let_def key_a key_b cite_a cite_b sort_cites
      claims_probe_def)

lemma evidence_check_two_docs:
  "evidence_check claims_probe [\<lparr>score = s1, rdoc = doc_a\<rparr>, \<lparr>score = s2, rdoc = doc_b\<rparr>] ! 3
     = (claims_probe ! 3, [])"
  using fourth_claim_no_key_term
  by (simp add: evidence_check_def Let_def claims_probe_def)

text \<open>\<open>evidence_check\<close> itself gives a claim without a key term no citation.\<close>

lemma evidence_check_no_key_term:
  assumes "\<not> any_in key_terms (lower c)" and "(c, cites) \<in> set (evidence_check claims ds)"
  shows "cites = []"
proof -
  have e: "concat (map (\<lambda>d. []) ds) = ([] :: string list)" by (induction ds) simp_all
  show ?thesis
    using assms by (auto simp: evidence_check_def Let_def e)
qed

text \<open>
  Claim C5 fails on the orchestration path.  The fourth probe claim of \<open>run_agent\<close>
  contains no key term, and \<open>run_agent\<close> still gives it the citations of every retrieved
  document whose text contains one; \<open>evidence_check\<close> on the same claims and documents
  gives it none.
\<close>

theorem run_agent_cites_claim_without_key_term:
  assumes "numpy_contract np"
  shows "\<exists>res. run_agent np two_docs initial_world tax_case ok_drafter = Inr res
     \<and> \<not> any_in key_terms (lower (claims_probe ! 3))
     \<and> grounding res ! 3 = (claims_probe ! 3, [''PUCL (1997)'', ''Puttaswamy (2017)''])
     \<and> evidence_check claims_probe (retrieved res) ! 3 = (claims_probe ! 3, [])"
  unfolding run_agent_two_docs[OF assms]
  using fourth_claim_no_key_term by (simp add: grounding_two_docs evidence_check_two_docs)

theorem run_agent_cites_claim_without_key_term_witness:
  "numpy_contract stable_numpy
   \<and> snd (grounding (projr (run_agent stable_numpy two_docs initial_world tax_case ok_drafter))
            ! 3) = [''PUCL (1997)'', ''Puttaswamy (2017)'']"
  using run_agent_cites_claim_without_key_term[OF stable_numpy_contract] stable_numpy_contract
  by auto

section \<open>Properties of the snippets\<close>

lemma evidence_probe: "evidence (probe_snippets rs c) = take 3 (snippet_evidences rs)"
  by (simp add: probe_snippets_def)

lemma claim_probe: "claim (probe_snippets rs c) = c"
  by (simp add: probe_snippets_def)

lemma snippet_evidences_sources: "subseq (map source (snippet_evidences rs)) (map cite rs)"
proof (induction rs)
  case Nil
  then show ?case by (simp add: snippet_evidences_def)
next
  case (Cons d rs)
  then show ?case
    by (auto simp: snippet_evidences_def split: option.splits)
qed

lemma snippet_evidences_two_docs:
  "snippet_evidences [\<lparr>score = s1, rdoc = doc_a\<rparr>, \<lparr>score = s2, rdoc = doc_b\<rparr>]
     = [\<lparr>source = ''PUCL (1997)'', snippet = ''Telephone tapping invades privacy.''\<rparr>,
        \<lparr>source = ''Puttaswamy (2017)'',
         snippet = ''Privacy is a fundamental right; limits must meet proportionality.''\<rparr>]"
  by (simp add: snippet_evidences_def snippet_a snippet_b cite_a cite_b)

text \<open>
  Claim C10.  In the result of one \<open>run_agent\<close> call there is one snippet record per
  probe claim, and the evidence of each record is the first three entries of the list
  computed from the retrieved documents and the key terms alone: the records of any two
  claims carry the same evidence, at most three snippets, their sources in the order of
  the retrieved documents.
\<close>

theorem snippets_independent_of_claim:
  assumes "run_agent np r w cf drafter = Inr res"
  shows "map claim (grounding_snippets res) = claims_probe
       \<and> (\<forall>x \<in> set (grounding_snippets res).
            evidence x = take 3 (snippet_evidences (retrieved res))
            \<and> (\<forall>y \<in> set (grounding_snippets res). evidence x = evidence y)
            \<and> length (evidence x) \<le> 3
            \<and> subseq (map source (evidence x)) (map cite (retrieved res)))"
proof -
  have gs: "grounding_snippets res = map (probe_snippets (retrieved res)) claims_probe"
    using run_agent_fields(2)[OF assms] .
  have sub: "subseq (map source (take 3 (snippet_evidences (retrieved res))))
               (map cite (retrieved res))"
  proof -
    have "subseq (take 3 (snippet_evidences (retrieved res)))
            (snippet_evidences (retrieved res))"
      by (rule prefix_imp_subseq) (rule take_is_prefix)
    then have "subseq (map source (take 3 (snippet_evidences (retrieved res))))
                 (map source (snippet_evidences (retrieved res)))"
      by (rule subseq_map)
    then show ?thesis
      using snippet_evidences_sources[of "retrieved res"] by (rule subseq_order.trans)
  qed
  show ?thesis
    unfolding gs using sub by (simp add: evidence_probe claim_probe comp_def)
qed

theorem snippets_independent_of_claim_witness:
  "numpy_contract stable_numpy
   \<and> map (\<lambda>x. map source (evidence x))
       (grounding_snippets
          (projr (run_agent stable_numpy two_docs initial_world tax_case ok_drafter)))
     = replicate 4 [''PUCL (1997)'', ''Puttaswamy (2017)'']"
proof -
  define res where
    "res = projr (run_agent stable_numpy two_docs initial_world tax_case ok_drafter)"
  have run: "run_agent stable_numpy two_docs initial_world tax_case ok_drafter = Inr res"
    unfolding res_def run_agent_two_docs[OF stable_numpy_contract] by simp
  have ret: "retrieved res = [\<lparr>score = 0.515, rdoc = doc_a\<rparr>, \<lparr>score = 0.73, rdoc = doc_b\<rparr>]"
    unfolding res_def run_agent_two_docs[OF stable_numpy_contract] by simp
  have len: "length (grounding_snippets res) = 4"
    unfolding res_def run_agent_two_docs[OF stable_numpy_contract]
    by (simp add: claims_probe_def)
  have "\<forall>x \<in> set (grounding_snippets res).
          map source (evidence x) = [''PUCL (1997)'', ''Puttaswamy (2017)'']"
    using snippets_independent_of_claim[OF run]
    by (simp add: ret snippet_evidences_two_docs)
  then have "map (\<lambda>x. map source (evidence x)) (grounding_snippets res)
               = replicate (length (grounding_snippets res))
                   [''PUCL (1997)'', ''Puttaswamy (2017)'']"
    by (simp add: map_replicate_const[symmetric] cong: map_cong)
  then have e: "map (\<lambda>x. map source (evidence x)) (grounding_snippets res)
                  = replicate 4 [''PUCL (1997)'', ''Puttaswamy (2017)'']"
    unfolding len .
  from stable_numpy_contract e[unfolded res_def] show ?thesis by (rule conjI)
qed

end
